theory Spec2Isabelle
  imports Main "HOL-Library.Word"
begin

section \<open>One-time authentication tokens of \<^verbatim>\<open>src/api/app.py\<close>\<close>

text \<open>
  The token system of the backend is three functions over one table of the remote
  store, \<^verbatim>\<open>auth_tokens\<close>: \<^verbatim>\<open>create_auth_token\<close>, \<^verbatim>\<open>verify_and_consume_token\<close> and
  \<^verbatim>\<open>cleanup_expired_tokens\<close>, with \<^verbatim>\<open>generate_secure_token\<close> producing the token text.
  The table is modelled as the list of its rows in insertion order (two rows may carry
  the same token unless the table declares the column unique), every request
  to the store as a function on that list which either raises or returns the new list
  together with the rows of \<^verbatim>\<open>result.data\<close>, and the clock and the random source as
  arguments of the call that reads them.
\<close>

subsection \<open>Data model\<close>

text \<open>
  A \<^verbatim>\<open>datetime\<close> is a count of microseconds since \<^verbatim>\<open>datetime.min\<close>, the start of
  year 1; \<^verbatim>\<open>isoformat()\<close> of two datetimes of the same clock compares as the datetimes
  do, so the text form is not modelled. \<^verbatim>\<open>datetime.max\<close>, the last microsecond of year
  9999, is the count 315537897599999999.
\<close>

type_synonym datetime = int

definition datetime_ok :: "int \<Rightarrow> bool" where
  "datetime_ok d = (0 \<le> d \<and> d \<le> 315537897599999999)"

text \<open>
  \<^verbatim>\<open>timedelta(minutes=m)\<close> is \<open>m\<close> minutes in microseconds; Python keeps it as days,
  seconds and microseconds and accepts it only while the days stay within 999999999
  either way.
\<close>

definition timedelta_minutes :: "int \<Rightarrow> int" where
  "timedelta_minutes m = m * 60000000"

definition timedelta_ok :: "int \<Rightarrow> bool" where
  "timedelta_ok m = (- 999999999 \<le> m div 1440 \<and> m div 1440 \<le> 999999999)"

text \<open>
  The expiry \<open>now + m\<close> minutes can be computed: neither the \<^verbatim>\<open>timedelta\<close> nor the
  sum leaves its range.
\<close>

definition expiry_representable :: "datetime \<Rightarrow> int \<Rightarrow> bool" where
  "expiry_representable now m = (timedelta_ok m \<and> datetime_ok (now + timedelta_minutes m))"

text \<open>One row of \<^verbatim>\<open>auth_tokens\<close>; \<^verbatim>\<open>used_at\<close> is NULL until the token is consumed.\<close>

record auth_token =
  token :: string
  user_id :: string
  expires_at :: datetime
  purpose :: string
  used_at :: "datetime option"

type_synonym auth_tokens = "auth_token list"

text \<open>The requests the three functions send, and the exceptions of the model.\<close>

datatype store_op = InsertReq | SelectReq | UpdateReq | DeleteReq

datatype py_exception = Exception string | APIError store_op | OverflowError

text \<open>The two computations of a datetime that can raise.\<close>

definition timedelta :: "int \<Rightarrow> py_exception + int" where
  "timedelta m = (if timedelta_ok m then Inr (timedelta_minutes m) else Inl OverflowError)"

definition datetime_add :: "datetime \<Rightarrow> int \<Rightarrow> py_exception + datetime" where
  "datetime_add d delta = (if datetime_ok (d + delta) then Inr (d + delta) else Inl OverflowError)"

text \<open>
  The backend as a call sees it: whether the module-level \<^verbatim>\<open>supabase\<close> client was
  initialised, and which kinds of request currently raise. The declaration of the table
  is not in the repository (it is created through the store's web interface), so
  whether it declares the token column unique is a parameter, \<open>token_unique\<close>.
\<close>

record backend =
  supabase :: bool
  failing :: "store_op set"
  token_unique :: bool

definition get_supabase_client :: "backend \<Rightarrow> bool" where
  "get_supabase_client b = (if \<not> supabase b then False else True)"

definition healthy :: "backend \<Rightarrow> bool" where
  "healthy b = (supabase b \<and> failing b = {})"

text \<open>The values a caller may pass as \<^verbatim>\<open>user_id\<close>, and Python's \<^verbatim>\<open>str\<close> on them.\<close>

datatype py_value = PyStr string | PyInt int

fun str_nat :: "nat \<Rightarrow> string" where
  "str_nat n =
     (if n < 10 then [''0123456789'' ! n]
      else str_nat (n div 10) @ [''0123456789'' ! (n mod 10)])"

declare str_nat.simps [simp del]

fun str_py :: "py_value \<Rightarrow> string" where
  "str_py (PyStr s) = s"
| "str_py (PyInt i) = (if i < 0 then CHR ''-'' # str_nat (nat (- i)) else str_nat (nat i))"

subsection \<open>Token generator\<close>

text \<open>
  \<^verbatim>\<open>secrets.token_hex(n)\<close> reads \<open>n\<close> bytes of the operating system's random source
  and writes each as two lower-case hexadecimal digits. The source of randomness is the
  argument \<open>rnd\<close>: the byte it yields at each position.
\<close>

type_synonym urandom = "nat \<Rightarrow> 8 word"

definition token_bytes :: "nat \<Rightarrow> urandom \<Rightarrow> 8 word list" where
  "token_bytes n rnd = map rnd [0..<n]"

definition hexdigit :: "nat \<Rightarrow> char" where
  "hexdigit d = ''0123456789abcdef'' ! d"

definition hexlify :: "8 word list \<Rightarrow> string" where
  "hexlify bs = concat (map (\<lambda>b. [hexdigit (unat b div 16), hexdigit (unat b mod 16)]) bs)"

definition token_hex :: "nat \<Rightarrow> urandom \<Rightarrow> string" where
  "token_hex n rnd = hexlify (token_bytes n rnd)"

definition generate_secure_token :: "urandom \<Rightarrow> string" where
  "generate_secure_token rnd = token_hex 32 rnd"

subsection \<open>Requests to the store\<close>

text \<open>
  Each function is one \<^verbatim>\<open>.execute()\<close>: it raises when the backend fails that kind of
  request and otherwise returns the table after the request and \<^verbatim>\<open>result.data\<close>.
  A request that raises is taken not to have been applied; what the store holds after a
  reply is lost is not modelled, and the statements below about failing requests speak
  of the returned results only. An insert returns the inserted row; where the token
  column is unique, inserting a token that is already there raises (duplicate key).
\<close>

definition insert_row ::
  "backend \<Rightarrow> auth_token \<Rightarrow> auth_tokens \<Rightarrow> py_exception + (auth_tokens \<times> auth_token list)" where
  "insert_row b r rows =
     (if InsertReq \<in> failing b then Inl (APIError InsertReq)
      else if token_unique b \<and> token r \<in> token ` set rows then Inl (APIError InsertReq)
      else Inr (rows @ [r], [r]))"

text \<open>
  \<^verbatim>\<open>select('user_id').eq('token', t).eq('purpose', p).gt('expires_at', now).is_('used_at', 'null')\<close>
\<close>

definition select_valid ::
  "backend \<Rightarrow> string \<Rightarrow> string \<Rightarrow> datetime \<Rightarrow> auth_tokens \<Rightarrow> py_exception + string list" where
  "select_valid b t p now rows =
     (if SelectReq \<in> failing b then Inl (APIError SelectReq)
      else Inr (map user_id
        (filter (\<lambda>r. token r = t \<and> purpose r = p \<and> expires_at r > now \<and> used_at r = None) rows)))"

text \<open>\<^verbatim>\<open>update({'used_at': now}).eq('token', t)\<close>\<close>

definition update_used ::
  "backend \<Rightarrow> string \<Rightarrow> datetime \<Rightarrow> auth_tokens \<Rightarrow> py_exception + auth_tokens" where
  "update_used b t now rows =
     (if UpdateReq \<in> failing b then Inl (APIError UpdateReq)
      else Inr (map (\<lambda>r. if token r = t then r\<lparr>used_at := Some now\<rparr> else r) rows))"

text \<open>\<^verbatim>\<open>delete().lt('expires_at', now)\<close>; the data of the result are the deleted rows.\<close>

definition delete_expired ::
  "backend \<Rightarrow> datetime \<Rightarrow> auth_tokens \<Rightarrow> py_exception + (auth_tokens \<times> auth_token list)" where
  "delete_expired b now rows =
     (if DeleteReq \<in> failing b then Inl (APIError DeleteReq)
      else Inr (filter (\<lambda>r. \<not> expires_at r < now) rows, filter (\<lambda>r. expires_at r < now) rows))"

subsection \<open>Issuing a token\<close>

text \<open>
  \<^verbatim>\<open>create_auth_token(user_id, purpose, expires_in_minutes=15)\<close>. The optional argument
  is \<open>None\<close> when the caller leaves it out. The result is the raised exception, or the
  returned value (\<open>None\<close> or the token) with the table after the call. The expiry is
  computed before the \<^verbatim>\<open>try\<close>, so its \<^verbatim>\<open>OverflowError\<close> reaches the caller; what the
  insert raises is caught and becomes \<open>None\<close>.
\<close>

definition create_auth_token ::
  "backend \<Rightarrow> datetime \<Rightarrow> urandom \<Rightarrow> py_value \<Rightarrow> string \<Rightarrow> int option \<Rightarrow> auth_tokens
     \<Rightarrow> py_exception + (string option \<times> auth_tokens)" where
  "create_auth_token b now rnd uid p expires_in_minutes rows =
     (if \<not> get_supabase_client b then Inl (Exception ''Supabase client not available'')
      else
        let tok = generate_secure_token rnd;
            minutes = (case expires_in_minutes of None \<Rightarrow> 15 | Some m \<Rightarrow> m)
        in case timedelta minutes of
             Inl e \<Rightarrow> Inl e
           | Inr delta \<Rightarrow>
               (case datetime_add now delta of
                  Inl e \<Rightarrow> Inl e
                | Inr exp \<Rightarrow>
                    (case insert_row b
                            \<lparr>token = tok, user_id = str_py uid, expires_at = exp, purpose = p,
                             used_at = None\<rparr> rows of
                       Inl e \<Rightarrow> Inr (None, rows)
                     | Inr (rows', data) \<Rightarrow>
                         if data \<noteq> [] then Inr (Some tok, rows') else Inr (None, rows'))))"

subsection \<open>Verifying and consuming a token\<close>

text \<open>The two dictionaries the function returns.\<close>

datatype verify_result = Valid string | Invalid

definition verify_and_consume_token ::
  "backend \<Rightarrow> datetime \<Rightarrow> string \<Rightarrow> string \<Rightarrow> auth_tokens \<Rightarrow> verify_result \<times> auth_tokens" where
  "verify_and_consume_token b now t p rows =
     (if \<not> get_supabase_client b then (Invalid, rows)
      else case select_valid b t p now rows of
             Inl e \<Rightarrow> (Invalid, rows)
           | Inr data \<Rightarrow>
               (case data of
                  [] \<Rightarrow> (Invalid, rows)
                | uid # _ \<Rightarrow>
                    (case update_used b t now rows of
                       Inl e \<Rightarrow> (Invalid, rows)
                     | Inr rows' \<Rightarrow> (Valid uid, rows'))))"

text \<open>
  The same function one request at a time, for calls that run concurrently: a call is
  ready, or has read the row and not yet written, or has returned.
\<close>

datatype call_state = Ready | Selected string | Returned verify_result

fun verify_step ::
  "backend \<Rightarrow> datetime \<Rightarrow> string \<Rightarrow> string \<Rightarrow> call_state \<times> auth_tokens
     \<Rightarrow> call_state \<times> auth_tokens" where
  "verify_step b now t p (Ready, rows) =
     (if \<not> get_supabase_client b then (Returned Invalid, rows)
      else case select_valid b t p now rows of
             Inl e \<Rightarrow> (Returned Invalid, rows)
           | Inr data \<Rightarrow>
               (case data of [] \<Rightarrow> (Returned Invalid, rows) | uid # _ \<Rightarrow> (Selected uid, rows)))"
| "verify_step b now t p (Selected uid, rows) =
     (case update_used b t now rows of
        Inl e \<Rightarrow> (Returned Invalid, rows)
      | Inr rows' \<Rightarrow> (Returned (Valid uid), rows'))"
| "verify_step b now t p (Returned r, rows) = (Returned r, rows)"

record call =
  call_now :: datetime
  call_token :: string
  call_purpose :: string
  call_at :: call_state

text \<open>
  A schedule names, step by step, the call that sends its next request; the calls share
  the table.
\<close>

fun run_schedule :: "backend \<Rightarrow> nat list \<Rightarrow> call list \<times> auth_tokens \<Rightarrow> call list \<times> auth_tokens" where
  "run_schedule b [] st = st"
| "run_schedule b (i # sched) (calls, rows) =
     (if i < length calls then
        let c = calls ! i;
            (s', rows') = verify_step b (call_now c) (call_token c) (call_purpose c) (call_at c, rows)
        in run_schedule b sched (calls[i := c\<lparr>call_at := s'\<rparr>], rows')
      else run_schedule b sched (calls, rows))"

subsection \<open>The sweeper\<close>

text \<open>
  \<^verbatim>\<open>cleanup_expired_tokens()\<close> returns nothing; the model returns the table after the
  tick and the count the tick logs (\<open>None\<close> when it logs no count).
\<close>

definition cleanup_expired_tokens :: "backend \<Rightarrow> datetime \<Rightarrow> auth_tokens \<Rightarrow> auth_tokens \<times> nat option" where
  "cleanup_expired_tokens b now rows =
     (if \<not> get_supabase_client b then (rows, None)
      else case delete_expired b now rows of
             Inl e \<Rightarrow> (rows, None)
           | Inr (rows', data) \<Rightarrow> (rows', Some (if data \<noteq> [] then length data else 0)))"

subsection \<open>Token states\<close>

text \<open>Every row of the token has been consumed.\<close>

definition all_consumed :: "string \<Rightarrow> auth_tokens \<Rightarrow> bool" where
  "all_consumed t rows = list_all (\<lambda>r. token r = t \<longrightarrow> used_at r \<noteq> None) rows"

section \<open>Properties\<close>

subsection \<open>Unfolding the calls\<close>

text \<open>On a healthy backend each function is one expression over the table.\<close>

lemma verify_healthy:
  assumes "healthy b"
  shows "verify_and_consume_token b now t p rows =
    (case filter (\<lambda>r. token r = t \<and> purpose r = p \<and> expires_at r > now \<and> used_at r = None) rows of
       [] \<Rightarrow> (Invalid, rows)
     | r # _ \<Rightarrow> (Valid (user_id r), map (\<lambda>r. if token r = t then r\<lparr>used_at := Some now\<rparr> else r) rows))"
  using assms
  by (simp add: verify_and_consume_token_def healthy_def get_supabase_client_def
      select_valid_def update_used_def split: list.splits)



text \<open>A returned token means the row was appended with the expiry asked for.\<close>

lemma create_token_appended:
  assumes "create_auth_token b now rnd uid p m rows = Inr (Some t, rows')"
  shows "t = generate_secure_token rnd
     \<and> expiry_representable now (case m of None \<Rightarrow> 15 | Some k \<Rightarrow> k)
     \<and> rows' = rows @ [\<lparr>token = t, user_id = str_py uid,
          expires_at = now + timedelta_minutes (case m of None \<Rightarrow> 15 | Some k \<Rightarrow> k),
          purpose = p, used_at = None\<rparr>]"
  using assms
  by (auto simp: create_auth_token_def insert_row_def Let_def expiry_representable_def
      timedelta_def datetime_add_def split: if_splits)

lemma cleanup_healthy:
  assumes "healthy b"
  shows "cleanup_expired_tokens b now rows =
    (filter (\<lambda>r. \<not> expires_at r < now) rows, Some (length (filter (\<lambda>r. expires_at r < now) rows)))"
  using assms
  by (simp add: cleanup_expired_tokens_def healthy_def get_supabase_client_def delete_expired_def)

text \<open>Whatever the backend does, a call either changes nothing or marks the token's rows.\<close>

lemma verify_cases:
  "verify_and_consume_token b now t p rows = (Invalid, rows) \<or>
   (\<exists>uid. verify_and_consume_token b now t p rows =
      (Valid uid, map (\<lambda>r. if token r = t then r\<lparr>used_at := Some now\<rparr> else r) rows))"
  by (simp add: verify_and_consume_token_def select_valid_def update_used_def split: list.splits)

lemma no_unused_after_mark:
  "filter (\<lambda>r. token r = t \<and> purpose r = p \<and> expires_at r > now' \<and> used_at r = None)
     (map (\<lambda>r. if token r = t then r\<lparr>used_at := Some now\<rparr> else r) rows) = []"
  by (induction rows) auto


text \<open>The stepwise function, run to its end by one call alone, is the function itself.\<close>

lemma verify_step_twice:
  "verify_step b now t p (verify_step b now t p (Ready, rows)) =
     (Returned (fst (verify_and_consume_token b now t p rows)),
      snd (verify_and_consume_token b now t p rows))"
  by (simp add: verify_and_consume_token_def split: sum.splits list.splits)

subsection \<open>Consumed is terminal\<close>

text \<open>
  Once every row of a token is consumed, no call run on its own finds the token valid
  again, and neither a verification (of any token) nor a sweeper tick brings a row of it
  back to pending.
\<close>

lemma all_consumed_mark:
  "all_consumed t (map (\<lambda>r. if token r = t then r\<lparr>used_at := Some now\<rparr> else r) rows)"
  by (induction rows) (simp_all add: all_consumed_def)

lemma all_consumed_mark_other:
  "all_consumed t rows \<Longrightarrow>
   all_consumed t (map (\<lambda>r. if token r = t' then r\<lparr>used_at := Some now\<rparr> else r) rows)"
  by (induction rows) (simp_all add: all_consumed_def)

lemma all_consumed_filter: "all_consumed t rows \<Longrightarrow> all_consumed t (filter P rows)"
  by (induction rows) (simp_all add: all_consumed_def)

lemma all_consumed_after_success:
  assumes "verify_and_consume_token b now t p rows = (Valid uid, rows')"
  shows "all_consumed t rows'"
proof -
  from verify_cases [of b now t p rows] assms
  have "rows' = map (\<lambda>r. if token r = t then r\<lparr>used_at := Some now\<rparr> else r) rows"
    by auto
  then show ?thesis
    by (simp only: all_consumed_mark)
qed

lemma all_consumed_no_pending:
  "all_consumed t rows \<Longrightarrow>
   filter (\<lambda>r. token r = t \<and> purpose r = p \<and> expires_at r > now \<and> used_at r = None) rows = []"
  by (induction rows) (auto simp: all_consumed_def)

lemma all_consumed_invalid:
  assumes "all_consumed t rows"
  shows "verify_and_consume_token b now t p rows = (Invalid, rows)"
  by (simp add: verify_and_consume_token_def select_valid_def all_consumed_no_pending [OF assms])

lemma all_consumed_verify:
  assumes "all_consumed t rows"
  shows "all_consumed t (snd (verify_and_consume_token b now t' p rows))"
proof -
  from verify_cases [of b now t' p rows]
  consider "snd (verify_and_consume_token b now t' p rows) = rows"
    | "snd (verify_and_consume_token b now t' p rows)
        = map (\<lambda>r. if token r = t' then r\<lparr>used_at := Some now\<rparr> else r) rows"
    by auto
  then show ?thesis
  proof cases
    case 1
    with assms show ?thesis by simp
  next
    case 2
    show ?thesis unfolding 2 by (rule all_consumed_mark_other [OF assms])
  qed
qed

lemma all_consumed_cleanup:
  assumes "all_consumed t rows"
  shows "all_consumed t (fst (cleanup_expired_tokens b now rows))"
  by (simp add: cleanup_expired_tokens_def delete_expired_def all_consumed_filter [OF assms] assms)

subsection \<open>Hexadecimal tokens\<close>


lemma hexdigit_inj:
  assumes "i < 16" and "j < 16" and "hexdigit i = hexdigit j"
  shows "i = j"
proof -
  have d: "distinct ''0123456789abcdef''" by simp
  have l: "length ''0123456789abcdef'' = 16" by simp
  from assms show ?thesis
    unfolding hexdigit_def using nth_eq_iff_index_eq [OF d, of i j] l by simp
qed

lemma hexdigit_in: "i < 16 \<Longrightarrow> hexdigit i \<in> set ''0123456789abcdef''"
  unfolding hexdigit_def by (rule nth_mem) simp

lemma byte_digits_inj:
  fixes a b :: "8 word"
  assumes "hexdigit (unat a div 16) = hexdigit (unat b div 16)"
    and "hexdigit (unat a mod 16) = hexdigit (unat b mod 16)"
  shows "a = b"
proof -
  have ua: "unat a < 256" using unsigned_less [of a] by simp
  have ub: "unat b < 256" using unsigned_less [of b] by simp
  have "unat a div 16 = unat b div 16"
    using ua ub assms(1) by (intro hexdigit_inj) auto
  moreover have "unat a mod 16 = unat b mod 16"
    using assms(2) by (intro hexdigit_inj) auto
  ultimately have "unat a = unat b"
    by (metis div_mult_mod_eq)
  then show ?thesis by (simp add: word_unat_eq_iff)
qed

lemma hexlify_inj: "hexlify xs = hexlify ys \<Longrightarrow> xs = ys"
proof (induction xs arbitrary: ys)
  case Nil
  then show ?case by (cases ys) (simp_all add: hexlify_def)
next
  case (Cons x xs)
  then show ?case
    by (cases ys) (auto simp: hexlify_def dest: byte_digits_inj)
qed

lemma set_hexlify: "set (hexlify bs) \<subseteq> set ''0123456789abcdef''"
proof (induction bs)
  case Nil
  then show ?case by (simp add: hexlify_def)
next
  case (Cons b bs)
  have ub: "unat b < 256" using unsigned_less [of b] by simp
  then have "unat b div 16 < 16" by simp
  then have 1: "hexdigit (unat b div 16) \<in> set ''0123456789abcdef''" by (rule hexdigit_in)
  have 2: "hexdigit (unat b mod 16) \<in> set ''0123456789abcdef''" by (rule hexdigit_in) simp
  have "hexlify (b # bs) = hexdigit (unat b div 16) # hexdigit (unat b mod 16) # hexlify bs"
    by (simp add: hexlify_def)
  with 1 2 Cons show ?case by simp
qed

lemma range_token_bytes: "range (token_bytes n) = {bs. length bs = n}"
proof (rule set_eqI, rule iffI)
  fix bs :: "8 word list"
  assume "bs \<in> range (token_bytes n)"
  then show "bs \<in> {bs. length bs = n}" by (auto simp: token_bytes_def)
next
  fix bs :: "8 word list"
  assume "bs \<in> {bs. length bs = n}"
  then have "token_bytes n (\<lambda>i. bs ! i) = bs"
    by (auto simp: token_bytes_def map_nth)
  then show "bs \<in> range (token_bytes n)" by (metis rangeI)
qed

lemma card_byte_lists: "card {bs :: 8 word list. length bs = n} = 256 ^ n"
  using card_lists_length_eq [of "UNIV :: 8 word set" n] by (simp add: card_word)


lemma set_generate_secure_token: "set (generate_secure_token rnd) \<subseteq> set ''0123456789abcdef''"
  unfolding generate_secure_token_def token_hex_def by (rule set_hexlify)


lemma card_range_generate_secure_token: "card (range generate_secure_token) = 2 ^ 256"
proof -
  have "range generate_secure_token = hexlify ` range (token_bytes 32)"
    by (auto simp: generate_secure_token_def token_hex_def)
  then have "card (range generate_secure_token) = card (hexlify ` {bs. length bs = 32})"
    by (simp add: range_token_bytes)
  also have "\<dots> = card {bs :: 8 word list. length bs = 32}"
    by (rule card_image) (auto simp: inj_on_def dest: hexlify_inj)
  also have "\<dots> = 256 ^ 32" by (rule card_byte_lists)
  also have "\<dots> = (2::nat) ^ 256"
  proof -
    have "(256::nat) = 2 ^ 8" by simp
    then have "(256::nat) ^ 32 = (2 ^ 8) ^ 32" by simp
    also have "\<dots> = (2::nat) ^ (8 * 32)" by (rule power_mult [symmetric])
    finally show ?thesis by simp
  qed
  finally show ?thesis .
qed



lemma token_of_zero_bytes:
  "generate_secure_token (\<lambda>_. 0) =
     ''0000000000000000000000000000000000000000000000000000000000000000''"
  by code_simp


subsection \<open>Concurrent consumption\<close>

text \<open>
  C1 (the code departs from it). Two calls for the same still-valid token and purpose
  run on a healthy backend, and the store serves their requests in the order select of
  the first, select of the second, update of the first, update of the second. Both
  selects see \<^verbatim>\<open>used_at\<close> NULL, the update carries no condition on \<^verbatim>\<open>used_at\<close>, and
  both calls return the valid result with the same user: the read and the write are two
  requests, not one atomic conditional update.
\<close>

theorem concurrent_verify_both_succeed:
  "run_schedule \<lparr>supabase = True, failing = {}, token_unique = True\<rparr> [0, 1, 0, 1]
     ([\<lparr>call_now = 100, call_token = ''T'', call_purpose = ''balance-reveal'', call_at = Ready\<rparr>,
       \<lparr>call_now = 101, call_token = ''T'', call_purpose = ''balance-reveal'', call_at = Ready\<rparr>],
      [\<lparr>token = ''T'', user_id = ''user-42'', expires_at = 900, purpose = ''balance-reveal'',
        used_at = None\<rparr>])
   = ([\<lparr>call_now = 100, call_token = ''T'', call_purpose = ''balance-reveal'',
        call_at = Returned (Valid ''user-42'')\<rparr>,
       \<lparr>call_now = 101, call_token = ''T'', call_purpose = ''balance-reveal'',
        call_at = Returned (Valid ''user-42'')\<rparr>],
      [\<lparr>token = ''T'', user_id = ''user-42'', expires_at = 900, purpose = ''balance-reveal'',
        used_at = Some 101\<rparr>])"
  by (simp add: get_supabase_client_def select_valid_def update_used_def)

text \<open>Served one call after the other, the same two calls give one success.\<close>

lemma sequential_verify_one_succeeds:
  "run_schedule \<lparr>supabase = True, failing = {}, token_unique = True\<rparr> [0, 0, 1, 1]
     ([\<lparr>call_now = 100, call_token = ''T'', call_purpose = ''balance-reveal'', call_at = Ready\<rparr>,
       \<lparr>call_now = 101, call_token = ''T'', call_purpose = ''balance-reveal'', call_at = Ready\<rparr>],
      [\<lparr>token = ''T'', user_id = ''user-42'', expires_at = 900, purpose = ''balance-reveal'',
        used_at = None\<rparr>])
   = ([\<lparr>call_now = 100, call_token = ''T'', call_purpose = ''balance-reveal'',
        call_at = Returned (Valid ''user-42'')\<rparr>,
       \<lparr>call_now = 101, call_token = ''T'', call_purpose = ''balance-reveal'',
        call_at = Returned Invalid\<rparr>],
      [\<lparr>token = ''T'', user_id = ''user-42'', expires_at = 900, purpose = ''balance-reveal'',
        used_at = Some 100\<rparr>])"
  by (simp add: get_supabase_client_def select_valid_def update_used_def)

subsection \<open>Verification\<close>

text \<open>
  C2. On a healthy backend, \<^verbatim>\<open>verify_and_consume_token(t, p)\<close> at time \<open>now\<close> returns a
  valid result if and only if the table has a row with token \<open>t\<close> whose \<^verbatim>\<open>used_at\<close> is
  NULL, whose \<^verbatim>\<open>expires_at\<close> is strictly later than \<open>now\<close> and whose purpose is \<open>p\<close>.
  Then the result carries the user of such a row and every row with token \<open>t\<close> is marked
  used at \<open>now\<close>; otherwise the result is the invalid one and the table is unchanged.
  In particular a token that was issued under a fresh token text and whose expiry
  \<open>now0 + ttl\<close> is not later than \<open>now\<close> (any \<open>ttl \<le> 0\<close>, or any wait past the expiry)
  is invalid though never consumed.
\<close>

theorem verify_and_consume_token_valid_iff:
  assumes "healthy b"
  shows "((\<exists>uid. fst (verify_and_consume_token b now t p rows) = Valid uid) \<longleftrightarrow>
          (\<exists>r \<in> set rows. token r = t \<and> used_at r = None \<and> now < expires_at r \<and> purpose r = p))
       \<and> (verify_and_consume_token b now t p rows = (Invalid, rows) \<or>
          (\<exists>r \<in> set rows. token r = t \<and> used_at r = None \<and> now < expires_at r \<and> purpose r = p \<and>
             verify_and_consume_token b now t p rows =
               (Valid (user_id r), map (\<lambda>r. if token r = t then r\<lparr>used_at := Some now\<rparr> else r) rows)))
       \<and> (create_auth_token b0 now0 rnd uid p (Some ttl) rows0 = Inr (Some t, rows) \<and>
            t \<notin> token ` set rows0 \<and> now0 + timedelta_minutes ttl \<le> now
          \<longrightarrow> verify_and_consume_token b now t p rows = (Invalid, rows))"
proof -
  let ?ok = "\<lambda>r. token r = t \<and> purpose r = p \<and> expires_at r > now \<and> used_at r = None"
  let ?v = "verify_and_consume_token b now t p rows"
  let ?marked = "map (\<lambda>r. if token r = t then r\<lparr>used_at := Some now\<rparr> else r) rows"
  have v: "?v = (case filter ?ok rows of [] \<Rightarrow> (Invalid, rows) | r # _ \<Rightarrow> (Valid (user_id r), ?marked))"
    by (rule verify_healthy [OF assms])
  have none: "?v = (Invalid, rows)" if "filter ?ok rows = []"
    using v that by simp
  have some: "\<exists>r \<in> set rows. ?ok r \<and> ?v = (Valid (user_id r), ?marked)"
    if "filter ?ok rows \<noteq> []"
  proof -
    from that obtain r rs where f: "filter ?ok rows = r # rs"
      by (cases "filter ?ok rows") auto
    then have "r \<in> set (filter ?ok rows)" by simp
    then have "r \<in> set rows" "?ok r" by auto
    moreover have "?v = (Valid (user_id r), ?marked)"
      using v f by simp
    ultimately show ?thesis by blast
  qed
  have empty_iff: "filter ?ok rows = [] \<longleftrightarrow> \<not> (\<exists>r \<in> set rows. ?ok r)"
    by (simp add: filter_empty_conv)
  have c1: "(\<exists>uid. fst ?v = Valid uid) \<longleftrightarrow>
          (\<exists>r \<in> set rows. token r = t \<and> used_at r = None \<and> now < expires_at r \<and> purpose r = p)"
  proof (cases "filter ?ok rows = []")
    case True
    with none empty_iff show ?thesis by auto
  next
    case False
    with some empty_iff show ?thesis by auto
  qed
  have c2: "?v = (Invalid, rows) \<or>
          (\<exists>r \<in> set rows. token r = t \<and> used_at r = None \<and> now < expires_at r \<and> purpose r = p \<and>
             ?v = (Valid (user_id r), ?marked))"
  proof (cases "filter ?ok rows = []")
    case True
    with none show ?thesis by simp
  next
    case False
    from some [OF False] show ?thesis by auto
  qed
  have c3: "?v = (Invalid, rows)"
    if h: "create_auth_token b0 now0 rnd uid p (Some ttl) rows0 = Inr (Some t, rows)"
      and fresh: "t \<notin> token ` set rows0" and late: "now0 + timedelta_minutes ttl \<le> now"
  proof -
    from create_token_appended [OF h] obtain r where rows: "rows = rows0 @ [r]"
      and e: "expires_at r = now0 + timedelta_minutes ttl"
      by simp
    have "filter ?ok rows0 = []"
      using fresh by (induction rows0) auto
    moreover have "\<not> ?ok r" using e late by simp
    ultimately have "filter ?ok rows = []" using rows by simp
    then show ?thesis by (rule none)
  qed
  from c1 c2 c3 show ?thesis by blast
qed

text \<open>
  The theorem at a table with one pending row, where the call succeeds, and at the table
  left by issuing with \<open>ttl = -1\<close>, where it does not.
\<close>

theorem verify_and_consume_token_valid_iff_witness:
  "healthy \<lparr>supabase = True, failing = {}, token_unique = True\<rparr>
   \<and> verify_and_consume_token \<lparr>supabase = True, failing = {}, token_unique = True\<rparr> 100 ''T'' ''balance-reveal''
       [\<lparr>token = ''T'', user_id = ''user-42'', expires_at = 900, purpose = ''balance-reveal'',
         used_at = None\<rparr>]
     = (Valid ''user-42'',
        [\<lparr>token = ''T'', user_id = ''user-42'', expires_at = 900, purpose = ''balance-reveal'',
          used_at = Some 100\<rparr>])
   \<and> (\<exists>rows. create_auth_token \<lparr>supabase = True, failing = {}, token_unique = True\<rparr> 100000000 (\<lambda>_. 0)
                (PyStr ''user-42'') ''balance-reveal'' (Some (- 1)) []
              = Inr (Some (generate_secure_token (\<lambda>_. 0)), rows)
            \<and> verify_and_consume_token \<lparr>supabase = True, failing = {}, token_unique = True\<rparr>
                100000000 (generate_secure_token (\<lambda>_. 0)) ''balance-reveal'' rows
              = (Invalid, rows))"
proof -
  let ?b = "\<lparr>supabase = True, failing = {}, token_unique = True\<rparr>"
  let ?row = "\<lparr>token = ''T'', user_id = ''user-42'', expires_at = 900,
               purpose = ''balance-reveal'', used_at = None\<rparr>"
  let ?exp = "\<lparr>token = generate_secure_token (\<lambda>_. 0), user_id = ''user-42'',
               expires_at = 100000000 + timedelta_minutes (- 1), purpose = ''balance-reveal'',
               used_at = None\<rparr>"
  have h: "healthy ?b" by (simp add: healthy_def)
  have c: "create_auth_token ?b 100000000 (\<lambda>_. 0) (PyStr ''user-42'') ''balance-reveal''
             (Some (- 1)) []
             = Inr (Some (generate_secure_token (\<lambda>_. 0)), [?exp])"
    by (simp add: create_auth_token_def get_supabase_client_def insert_row_def Let_def
        timedelta_def timedelta_ok_def datetime_add_def datetime_ok_def timedelta_minutes_def)
  have 1: "verify_and_consume_token ?b 100 ''T'' ''balance-reveal'' [?row]
             = (Valid ''user-42'', [?row\<lparr>used_at := Some 100\<rparr>])"
    using verify_and_consume_token_valid_iff [OF h, where now = 100 and t = "''T''"
        and p = "''balance-reveal''" and rows = "[?row]" and ?b0.0 = ?b and ?now0.0 = 0
        and rnd = "\<lambda>_. 0" and uid = "PyStr []" and ttl = 0 and ?rows0.0 = "[]"]
    by auto
  have 2: "verify_and_consume_token ?b 100000000 (generate_secure_token (\<lambda>_. 0))
             ''balance-reveal'' [?exp]
             = (Invalid, [?exp])"
    using verify_and_consume_token_valid_iff [OF h, where now = 100000000
        and t = "generate_secure_token (\<lambda>_. 0)" and p = "''balance-reveal''"
        and rows = "[?exp]" and ?b0.0 = ?b and ?now0.0 = 100000000 and rnd = "\<lambda>_. 0"
        and uid = "PyStr ''user-42''" and ttl = "- 1" and ?rows0.0 = "[]"] c
    by (simp add: timedelta_minutes_def)
  from h c 1 2 show ?thesis by simp
qed

text \<open>
  C3. After a call of \<^verbatim>\<open>verify_and_consume_token\<close> with a token and a purpose has
  returned the valid result, a second call with the same token and the same purpose, at
  any later time and whatever the state of the backend, returns the invalid result and
  leaves the table as it is.
\<close>

theorem second_verify_invalid:
  assumes "verify_and_consume_token b now t p rows = (Valid uid, rows')"
  shows "verify_and_consume_token b' now' t p rows' = (Invalid, rows')"
proof -
  from verify_cases [of b now t p rows] assms
  have r': "rows' = map (\<lambda>r. if token r = t then r\<lparr>used_at := Some now\<rparr> else r) rows"
    by auto
  show ?thesis
    unfolding r'
    by (simp add: verify_and_consume_token_def select_valid_def no_unused_after_mark)
qed

theorem second_verify_invalid_witness:
  "verify_and_consume_token \<lparr>supabase = True, failing = {}, token_unique = True\<rparr> 100 ''T'' ''balance-reveal''
       [\<lparr>token = ''T'', user_id = ''user-42'', expires_at = 900, purpose = ''balance-reveal'',
         used_at = None\<rparr>]
     = (Valid ''user-42'',
        [\<lparr>token = ''T'', user_id = ''user-42'', expires_at = 900, purpose = ''balance-reveal'',
          used_at = Some 100\<rparr>])
   \<and> verify_and_consume_token \<lparr>supabase = True, failing = {}, token_unique = True\<rparr> 101 ''T'' ''balance-reveal''
       [\<lparr>token = ''T'', user_id = ''user-42'', expires_at = 900, purpose = ''balance-reveal'',
         used_at = Some 100\<rparr>]
     = (Invalid,
        [\<lparr>token = ''T'', user_id = ''user-42'', expires_at = 900, purpose = ''balance-reveal'',
          used_at = Some 100\<rparr>])"
proof -
  have first: "verify_and_consume_token \<lparr>supabase = True, failing = {}, token_unique = True\<rparr> 100 ''T'' ''balance-reveal''
       [\<lparr>token = ''T'', user_id = ''user-42'', expires_at = 900, purpose = ''balance-reveal'',
         used_at = None\<rparr>]
     = (Valid ''user-42'',
        [\<lparr>token = ''T'', user_id = ''user-42'', expires_at = 900, purpose = ''balance-reveal'',
          used_at = Some 100\<rparr>])"
    by (simp add: verify_and_consume_token_def get_supabase_client_def select_valid_def
        update_used_def)
  from first second_verify_invalid [OF first, of "\<lparr>supabase = True, failing = {}, token_unique = True\<rparr>" 101]
  show ?thesis by simp
qed

subsection \<open>Issuing\<close>









subsection \<open>Storage failures\<close>




subsection \<open>The sweeper\<close>

text \<open>
  C7. On a healthy backend one tick of \<^verbatim>\<open>cleanup_expired_tokens\<close> at time \<open>now\<close> is
  one delete request: it keeps, unchanged and in order, exactly the rows with
  \<open>expires_at \<ge> now\<close>, removes exactly the rows with \<open>expires_at < now\<close> whatever their
  \<^verbatim>\<open>used_at\<close>, and logs their number. A second tick on the result, at the same time or
  at a later time before which no remaining row expires, deletes nothing.
\<close>

theorem cleanup_expired_tokens_tick:
  assumes "healthy b"
  shows "fst (cleanup_expired_tokens b now rows) = filter (\<lambda>r. now \<le> expires_at r) rows
       \<and> set rows - set (fst (cleanup_expired_tokens b now rows))
           = {r \<in> set rows. expires_at r < now}
       \<and> snd (cleanup_expired_tokens b now rows)
           = Some (length (filter (\<lambda>r. expires_at r < now) rows))
       \<and> cleanup_expired_tokens b now (fst (cleanup_expired_tokens b now rows))
           = (fst (cleanup_expired_tokens b now rows), Some 0)
       \<and> (now \<le> now2 \<and> (\<forall>r \<in> set rows. expires_at r < now \<or> now2 \<le> expires_at r)
          \<longrightarrow> cleanup_expired_tokens b now2 (fst (cleanup_expired_tokens b now rows))
                = (fst (cleanup_expired_tokens b now rows), Some 0))"
proof -
  have eq: "(\<lambda>r::auth_token. \<not> expires_at r < t) = (\<lambda>r. t \<le> expires_at r)" for t
    by (auto simp: not_less)
  have c: "cleanup_expired_tokens b t rs =
      (filter (\<lambda>r. t \<le> expires_at r) rs, Some (length (filter (\<lambda>r. expires_at r < t) rs)))"
    for t rs
    using cleanup_healthy [OF assms, of t rs] by (simp add: eq)
  have twice: "filter (\<lambda>r. expires_at r < now) (filter (\<lambda>r. now \<le> expires_at r) rows) = []"
    by (induction rows) auto
  have later_none: "filter (\<lambda>r. expires_at r < now2) (filter (\<lambda>r. now \<le> expires_at r) rows) = []"
    if "\<forall>r \<in> set rows. expires_at r < now \<or> now2 \<le> expires_at r"
    using that by (induction rows) auto
  have later_all: "filter (\<lambda>r. now2 \<le> expires_at r) (filter (\<lambda>r. now \<le> expires_at r) rows)
      = filter (\<lambda>r. now \<le> expires_at r) rows"
    if "\<forall>r \<in> set rows. expires_at r < now \<or> now2 \<le> expires_at r"
    using that by (induction rows) auto
  have gone: "set rows - set (filter (\<lambda>r. now \<le> expires_at r) rows)
      = {r \<in> set rows. expires_at r < now}"
    by auto
  let ?kept = "filter (\<lambda>r. now \<le> expires_at r) rows"
  have f1: "fst (cleanup_expired_tokens b now rows) = ?kept"
    by (simp add: c)
  have s1: "snd (cleanup_expired_tokens b now rows)
      = Some (length (filter (\<lambda>r. expires_at r < now) rows))"
    by (simp add: c)
  have again: "cleanup_expired_tokens b now ?kept = (?kept, Some 0)"
    unfolding c twice by simp
  have later: "cleanup_expired_tokens b now2 ?kept = (?kept, Some 0)"
    if "\<forall>r \<in> set rows. expires_at r < now \<or> now2 \<le> expires_at r"
    unfolding c later_none [OF that] later_all [OF that] by simp
  from gone s1 again later show ?thesis
    unfolding f1 by blast
qed

text \<open>
  Three expired rows (one of them consumed) and two that are not: the tick at time 100
  deletes three, and the next tick, at time 150, none.
\<close>

theorem cleanup_expired_tokens_tick_witness:
  "healthy \<lparr>supabase = True, failing = {}, token_unique = True\<rparr>
   \<and> cleanup_expired_tokens \<lparr>supabase = True, failing = {}, token_unique = True\<rparr> 100
       [\<lparr>token = ''a'', user_id = ''u1'', expires_at = 10, purpose = ''login'', used_at = None\<rparr>,
        \<lparr>token = ''b'', user_id = ''u2'', expires_at = 200, purpose = ''login'', used_at = None\<rparr>,
        \<lparr>token = ''c'', user_id = ''u3'', expires_at = 99, purpose = ''login'', used_at = Some 50\<rparr>,
        \<lparr>token = ''d'', user_id = ''u4'', expires_at = 300, purpose = ''login'', used_at = Some 60\<rparr>,
        \<lparr>token = ''e'', user_id = ''u5'', expires_at = 0, purpose = ''login'', used_at = None\<rparr>]
     = ([\<lparr>token = ''b'', user_id = ''u2'', expires_at = 200, purpose = ''login'', used_at = None\<rparr>,
         \<lparr>token = ''d'', user_id = ''u4'', expires_at = 300, purpose = ''login'', used_at = Some 60\<rparr>],
        Some 3)
   \<and> cleanup_expired_tokens \<lparr>supabase = True, failing = {}, token_unique = True\<rparr> 150
       [\<lparr>token = ''b'', user_id = ''u2'', expires_at = 200, purpose = ''login'', used_at = None\<rparr>,
        \<lparr>token = ''d'', user_id = ''u4'', expires_at = 300, purpose = ''login'', used_at = Some 60\<rparr>]
     = ([\<lparr>token = ''b'', user_id = ''u2'', expires_at = 200, purpose = ''login'', used_at = None\<rparr>,
         \<lparr>token = ''d'', user_id = ''u4'', expires_at = 300, purpose = ''login'', used_at = Some 60\<rparr>],
        Some 0)"
proof -
  let ?b = "\<lparr>supabase = True, failing = {}, token_unique = True\<rparr>"
  let ?rows = "[\<lparr>token = ''a'', user_id = ''u1'', expires_at = 10, purpose = ''login'', used_at = None\<rparr>,
        \<lparr>token = ''b'', user_id = ''u2'', expires_at = 200, purpose = ''login'', used_at = None\<rparr>,
        \<lparr>token = ''c'', user_id = ''u3'', expires_at = 99, purpose = ''login'', used_at = Some 50\<rparr>,
        \<lparr>token = ''d'', user_id = ''u4'', expires_at = 300, purpose = ''login'', used_at = Some 60\<rparr>,
        \<lparr>token = ''e'', user_id = ''u5'', expires_at = 0, purpose = ''login'', used_at = None\<rparr>]"
  have h: "healthy ?b" by (simp add: healthy_def)
  note inst = cleanup_expired_tokens_tick [OF h, where now = 100 and ?now2.0 = 150 and rows = ?rows]
  have 1: "fst (cleanup_expired_tokens ?b 100 ?rows) =
      [\<lparr>token = ''b'', user_id = ''u2'', expires_at = 200, purpose = ''login'', used_at = None\<rparr>,
       \<lparr>token = ''d'', user_id = ''u4'', expires_at = 300, purpose = ''login'', used_at = Some 60\<rparr>]"
    using inst [THEN conjunct1] by simp
  have 2: "snd (cleanup_expired_tokens ?b 100 ?rows) = Some 3"
    using inst [THEN conjunct2, THEN conjunct2, THEN conjunct1] by simp
  have quiet: "(100::int) \<le> 150 \<and> (\<forall>r \<in> set ?rows. expires_at r < 100 \<or> 150 \<le> expires_at r)"
    by simp
  note 3 = inst [THEN conjunct2, THEN conjunct2, THEN conjunct2, THEN conjunct2, THEN mp,
      OF quiet, unfolded 1]
  have "cleanup_expired_tokens ?b 100 ?rows
      = (fst (cleanup_expired_tokens ?b 100 ?rows), snd (cleanup_expired_tokens ?b 100 ?rows))"
    by simp
  with 1 2 3 h show ?thesis by simp
qed




end
